theory Spec2Isabelle
  imports Complex_Main
begin

section \<open>Python values and exceptions\<close>

text \<open>
  The exceptions the trading bot meets. Those of \<^verbatim>\<open>ccxt\<close> form a hierarchy:
  \<^verbatim>\<open>RequestTimeout\<close> is a \<^verbatim>\<open>NetworkError\<close>, \<^verbatim>\<open>InsufficientFunds\<close> is an
  \<^verbatim>\<open>ExchangeError\<close>. The others are raised by the interpreter itself: a lookup of an
  unbound name, arithmetic on \<^verbatim>\<open>None\<close>, a missing key, a division by zero.
  Floats are idealised as reals throughout.
\<close>

datatype py_exn =
  NetworkError | RequestTimeout | InsufficientFunds | ExchangeError
  | KeyError | TypeError | ZeroDivisionError | NameError | OtherException

text \<open>\<^verbatim>\<open>except (ccxt.NetworkError, ccxt.RequestTimeout)\<close>\<close>

fun is_network_error :: "py_exn \<Rightarrow> bool" where
  "is_network_error NetworkError = True"
| "is_network_error RequestTimeout = True"
| "is_network_error _ = False"

text \<open>
  A number that may be \<^verbatim>\<open>None\<close> is a \<open>real option\<close>. The three operators below are
  Python's \<^verbatim>\<open>-\<close>, \<^verbatim>\<open>*\<close> and \<^verbatim>\<open>/\<close> on such operands: \<^verbatim>\<open>None\<close> raises
  \<^verbatim>\<open>TypeError\<close>, a zero divisor raises \<^verbatim>\<open>ZeroDivisionError\<close>.
\<close>

fun py_sub :: "real option \<Rightarrow> real option \<Rightarrow> py_exn + real" where
  "py_sub (Some a) (Some b) = Inr (a - b)"
| "py_sub _ _ = Inl TypeError"

fun py_mul :: "real option \<Rightarrow> real option \<Rightarrow> py_exn + real" where
  "py_mul (Some a) (Some b) = Inr (a * b)"
| "py_mul _ _ = Inl TypeError"

fun py_div :: "real option \<Rightarrow> real option \<Rightarrow> py_exn + real" where
  "py_div (Some a) (Some b) = (if b = 0 then Inl ZeroDivisionError else Inr (a / b))"
| "py_div _ _ = Inl TypeError"

text \<open>\<^verbatim>\<open>str(n)\<close> for a non-negative integer.\<close>

definition digit_char :: "nat \<Rightarrow> char" where
  "digit_char d = char_of (48 + d)"

fun str_nat :: "nat \<Rightarrow> string" where
  "str_nat n = (if n < 10 then [digit_char n] else str_nat (n div 10) @ [digit_char (n mod 10)])"

declare str_nat.simps [simp del]

section \<open>Data model\<close>

datatype signal = BUY | SELL | WAIT

text \<open>
  An order is the dictionary of ccxt's unified order structure, restricted to the keys
  the bot reads or writes. Every key is present; a value the exchange does not report
  is \<^verbatim>\<open>None\<close>.
\<close>

record order =
  order_id :: string
  symbol :: string
  otype :: string
  side :: string
  price :: "real option"
  amount :: "real option"
  cost :: "real option"

text \<open>\<^verbatim>\<open>fetch_balance()\<close>: per currency, the \<^verbatim>\<open>'free'\<close> amount (possibly \<^verbatim>\<open>None\<close>).\<close>

type_synonym balances = "string \<rightharpoonup> real option"

datatype dataframe = DataFrame

text \<open>
  The exchange as one cycle of the bot sees it: what each method of the ccxt object
  answers (a value, or the exception it raises) when called with the given arguments.
  \<open>fetch_ticker\<close> gives the \<^verbatim>\<open>'last'\<close> price of the ticker.
\<close>

record exchange =
  fetch_ohlcv :: "py_exn + dataframe"
  fetch_balance :: "py_exn + balances"
  fetch_ticker :: "string \<Rightarrow> py_exn + real option"
  create_market_buy_order :: "string \<Rightarrow> real \<Rightarrow> py_exn + order"
  create_market_sell_order :: "string \<Rightarrow> real option \<Rightarrow> py_exn + order"

text \<open>
  One cycle also consults the strategy (treated as an oracle: the signal it returns, or
  the exception it raises) and the clock (\<^verbatim>\<open>int(time.time())\<close>).
\<close>

record cycle = exchange +
  run_strategy :: "py_exn + signal"
  now :: nat

text \<open>
  The settings of \<^verbatim>\<open>config.py\<close> that the core reads. \<open>time_bound\<close> says whether the
  name \<^verbatim>\<open>time\<close> is bound in the namespace of \<^verbatim>\<open>execution.py\<close>: the module imports
  \<^verbatim>\<open>time\<close> only under \<^verbatim>\<open>if __name__ == "__main__"\<close>, so the name is unbound when the
  module is imported by \<^verbatim>\<open>main.py\<close> and \<^verbatim>\<open>time.time()\<close> raises \<^verbatim>\<open>NameError\<close> there.
\<close>

record config =
  DRY_RUN :: bool
  SYMBOL :: string
  POSITION_SIZE_USDT :: real
  time_bound :: bool

text \<open>
  Effects are recorded in traces. A gateway call is logged with the exception it raised,
  if any. The last_price component of an order submission is ccxt's optional \<^verbatim>\<open>params\<close>
  dictionary, the only place where a client order id could travel.
\<close>

datatype gw_call =
  FetchOHLCV
  | FetchBalance
  | FetchTicker string
  | CreateMarketBuyOrder string real "(string \<times> string) list"
  | CreateMarketSellOrder string "real option" "(string \<times> string) list"

datatype error_note =
  BuyInsufficientFunds string
  | BuyError py_exn
  | SellError py_exn
  | MainLoopError py_exn
  | BotStopped

datatype notification =
  NotifyBuy string real real bool
  | NotifySell string real real real bool
  | NotifyError error_note

text \<open>The lines that \<^verbatim>\<open>run_once\<close> writes to the log when it takes a decision.\<close>

datatype log_line =
  DataUnavailable | AlreadyPositioned | InsufficientBalance | NoPositionToSell
  | BuyOk | BuyFailed | SellOk | SellFailed | Waiting

text \<open>
  The bot: the executor's single nullable field \<^verbatim>\<open>current_position\<close>, and the traces
  of gateway calls, notifications and log lines (newest last_price).
\<close>

record bot =
  current_position :: "order option"
  calls :: "(gw_call \<times> py_exn option) list"
  notifications :: "notification list"
  journal :: "log_line list"

definition init :: bot where
  "init = \<lparr>current_position = None, calls = [], notifications = [], journal = []\<rparr>"

definition raised :: "py_exn + 'a \<Rightarrow> py_exn option" where
  "raised r = (case r of Inl e \<Rightarrow> Some e | Inr _ \<Rightarrow> None)"

definition record_call :: "gw_call \<Rightarrow> py_exn + 'a \<Rightarrow> bot \<Rightarrow> bot" where
  "record_call c r s = s\<lparr>calls := calls s @ [(c, raised r)]\<rparr>"

definition notify :: "notification \<Rightarrow> bot \<Rightarrow> bot" where
  "notify n s = s\<lparr>notifications := notifications s @ [n]\<rparr>"

definition log_decision :: "log_line \<Rightarrow> bot \<Rightarrow> bot" where
  "log_decision l s = s\<lparr>journal := journal s @ [l]\<rparr>"

section \<open>execution.py: OrderExecutor\<close>

text \<open>
  \<^verbatim>\<open>check_balance\<close>. Everything inside the \<^verbatim>\<open>try\<close> that raises (the fetch, a missing
  currency, formatting a \<^verbatim>\<open>None\<close> balance) ends in \<^verbatim>\<open>return False\<close>.
  \<^verbatim>\<open>if required_amount:\<close> is Python truthiness: \<^verbatim>\<open>None\<close> and \<^verbatim>\<open>0\<close> are false.
\<close>

definition truthy :: "real option \<Rightarrow> bool" where
  "truthy v = (case v of None \<Rightarrow> False | Some x \<Rightarrow> x \<noteq> 0)"

definition check_balance :: "'a exchange_scheme \<Rightarrow> string \<Rightarrow> real option \<Rightarrow> bot \<Rightarrow> bool \<times> bot" where
  "check_balance ex currency required_amount s =
    (let s1 = record_call FetchBalance (fetch_balance ex) s in
     case fetch_balance ex of
       Inl e \<Rightarrow> (False, s1)
     | Inr balance \<Rightarrow>
        (case balance currency of
           None \<Rightarrow> (False, s1)
         | Some None \<Rightarrow> (False, s1)
         | Some (Some free_balance) \<Rightarrow>
            (if truthy required_amount
             then (if free_balance \<ge> the required_amount then (True, s1) else (False, s1))
             else (free_balance > 0, s1))))"

definition has_open_position :: "bot \<Rightarrow> bool" where
  "has_open_position s = (current_position s \<noteq> None)"

text \<open>
  \<^verbatim>\<open>place_market_buy\<close>. The result is \<open>Inl e\<close> when exception \<open>e\<close> leaves the function
  (only the dry-run branch has no \<^verbatim>\<open>try\<close>), \<open>Inr None\<close> for \<^verbatim>\<open>return None\<close> and
  \<open>Inr (Some order)\<close> otherwise.
\<close>

definition buy_failed :: "string \<Rightarrow> py_exn \<Rightarrow> bot \<Rightarrow> (py_exn + order option) \<times> bot" where
  "buy_failed smb e s =
    (Inr None, notify (NotifyError (if e = InsufficientFunds then BuyInsufficientFunds smb else BuyError e)) s)"

definition place_market_buy ::
  "config \<Rightarrow> 'a exchange_scheme \<Rightarrow> nat \<Rightarrow> string \<Rightarrow> real \<Rightarrow> bot \<Rightarrow> (py_exn + order option) \<times> bot" where
  "place_market_buy cfg ex clock smb amount_usdt s =
    (if DRY_RUN cfg then
       (let t = fetch_ticker ex smb; s1 = record_call (FetchTicker smb) t s in
        case t of
          Inl e \<Rightarrow> (Inl e, s1)
        | Inr last_price \<Rightarrow>
           (if \<not> time_bound cfg then (Inl NameError, s1)
            else case py_div (Some amount_usdt) last_price of
              Inl e \<Rightarrow> (Inl e, s1)
            | Inr qty \<Rightarrow>
               (let fake_order = \<lparr>order_id = ''DRY_RUN_'' @ str_nat clock, symbol = smb,
                      otype = ''market'', side = ''buy'', price = last_price,
                      amount = Some qty, cost = Some amount_usdt\<rparr>
                in (Inr (Some fake_order),
                    notify (NotifyBuy smb (the last_price) amount_usdt True)
                      (s1\<lparr>current_position := Some fake_order\<rparr>)))))
     else
       (let t = fetch_ticker ex smb; s1 = record_call (FetchTicker smb) t s in
        case t of
          Inl e \<Rightarrow> buy_failed smb e s1
        | Inr current_price \<Rightarrow>
           (case py_div (Some amount_usdt) current_price of
              Inl e \<Rightarrow> buy_failed smb e s1
            | Inr qty \<Rightarrow>
               (let r = create_market_buy_order ex smb qty;
                    s2 = record_call (CreateMarketBuyOrder smb qty []) r s1
                in case r of
                     Inl e \<Rightarrow> buy_failed smb e s2
                   | Inr ord \<Rightarrow>
                      (Inr (Some ord),
                       notify (NotifyBuy smb (the current_price) amount_usdt False)
                         (s2\<lparr>current_position := Some ord\<rparr>))))))"

text \<open>
  The profit computed by \<^verbatim>\<open>place_market_sell\<close>:
  \<^verbatim>\<open>((current_price - buy_price) / buy_price) * 100\<close>.
\<close>

definition profit_pct :: "real option \<Rightarrow> real option \<Rightarrow> py_exn + real" where
  "profit_pct current_price buy_price =
    (case py_sub current_price buy_price of
       Inl e \<Rightarrow> Inl e
     | Inr d \<Rightarrow> (case py_div (Some d) buy_price of Inl e \<Rightarrow> Inl e | Inr q \<Rightarrow> Inr (q * 100)))"

definition sell_failed :: "py_exn \<Rightarrow> bot \<Rightarrow> (py_exn + order option) \<times> bot" where
  "sell_failed e s = (Inr None, notify (NotifyError (SellError e)) s)"

text \<open>
  \<^verbatim>\<open>place_market_sell\<close>. \<open>amount_arg\<close> is the optional parameter (\<open>None\<close>: not given,
  then the amount of the position is sold). A position is a non-empty dictionary, so
  \<^verbatim>\<open>not self.current_position\<close> holds exactly when the field is \<^verbatim>\<open>None\<close>.
\<close>

definition place_market_sell ::
  "config \<Rightarrow> 'a exchange_scheme \<Rightarrow> nat \<Rightarrow> string \<Rightarrow> real option \<Rightarrow> bot \<Rightarrow> (py_exn + order option) \<times> bot" where
  "place_market_sell cfg ex clock smb amount_arg s =
    (case current_position s of
       None \<Rightarrow> (Inr None, s)
     | Some pos \<Rightarrow>
        (let amt = (case amount_arg of None \<Rightarrow> amount pos | Some a \<Rightarrow> Some a) in
         if DRY_RUN cfg then
           (let t = fetch_ticker ex smb; s1 = record_call (FetchTicker smb) t s in
            case t of
              Inl e \<Rightarrow> (Inl e, s1)
            | Inr current_price \<Rightarrow>
               (case profit_pct current_price (price pos) of
                  Inl e \<Rightarrow> (Inl e, s1)
                | Inr pp \<Rightarrow>
                   (if \<not> time_bound cfg then (Inl NameError, s1)
                    else case py_mul amt current_price of
                      Inl e \<Rightarrow> (Inl e, s1)
                    | Inr c \<Rightarrow>
                       (let fake_order = \<lparr>order_id = ''DRY_RUN_SELL_'' @ str_nat clock, symbol = smb,
                              otype = ''market'', side = ''sell'', price = current_price,
                              amount = amt, cost = Some c\<rparr>
                        in (Inr (Some fake_order),
                            (notify (NotifySell smb (the current_price) c pp True) s1)
                              \<lparr>current_position := None\<rparr>)))))
         else
           (let r = create_market_sell_order ex smb amt;
                s1 = record_call (CreateMarketSellOrder smb amt []) r s
            in case r of
                 Inl e \<Rightarrow> sell_failed e s1
               | Inr ord \<Rightarrow>
                  (case profit_pct (price ord) (price pos) of
                     Inl e \<Rightarrow> sell_failed e s1
                   | Inr pp \<Rightarrow>
                      (case py_mul amt (price ord) of
                         Inl e \<Rightarrow> sell_failed e s1
                       | Inr c \<Rightarrow>
                          (Inr (Some ord),
                           (notify (NotifySell smb (the (price ord)) c pp False) s1)
                             \<lparr>current_position := None\<rparr>))))))"

section \<open>main.py: TradingBot.run_once\<close>

text \<open>
  \<^verbatim>\<open>DataHandler.fetch_ohlcv\<close> catches every exception and returns \<^verbatim>\<open>None\<close>.
\<close>

definition data_handler_fetch_ohlcv :: "'a exchange_scheme \<Rightarrow> bot \<Rightarrow> dataframe option \<times> bot" where
  "data_handler_fetch_ohlcv ex s =
    (let s1 = record_call FetchOHLCV (fetch_ohlcv ex) s in
     case fetch_ohlcv ex of Inl e \<Rightarrow> (None, s1) | Inr df \<Rightarrow> (Some df, s1))"

definition main_loop_error :: "py_exn \<Rightarrow> bot \<Rightarrow> bool \<times> bot" where
  "main_loop_error e s = (False, notify (NotifyError (MainLoopError e)) s)"

definition run_once :: "config \<Rightarrow> cycle \<Rightarrow> bot \<Rightarrow> bool \<times> bot" where
  "run_once cfg c s =
    (case data_handler_fetch_ohlcv c s of
       (None, s0) \<Rightarrow> (False, log_decision DataUnavailable s0)
     | (Some df, s0) \<Rightarrow>
        (case run_strategy c of
           Inl e \<Rightarrow> main_loop_error e s0
         | Inr BUY \<Rightarrow>
            (if has_open_position s0 then (True, log_decision AlreadyPositioned s0)
             else case check_balance c ''USDT'' (Some (POSITION_SIZE_USDT cfg)) s0 of
               (False, s1) \<Rightarrow> (True, log_decision InsufficientBalance s1)
             | (True, s1) \<Rightarrow>
                (case place_market_buy cfg c (now c) (SYMBOL cfg) (POSITION_SIZE_USDT cfg) s1 of
                   (Inl e, s2) \<Rightarrow> main_loop_error e s2
                 | (Inr None, s2) \<Rightarrow> (True, log_decision BuyFailed s2)
                 | (Inr (Some ord), s2) \<Rightarrow> (True, log_decision BuyOk s2)))
         | Inr SELL \<Rightarrow>
            (if \<not> has_open_position s0 then (True, log_decision NoPositionToSell s0)
             else case place_market_sell cfg c (now c) (SYMBOL cfg) None s0 of
               (Inl e, s1) \<Rightarrow> main_loop_error e s1
             | (Inr None, s1) \<Rightarrow> (True, log_decision SellFailed s1)
             | (Inr (Some ord), s1) \<Rightarrow> (True, log_decision SellOk s1))
         | Inr WAIT \<Rightarrow> (True, log_decision Waiting s0)))"

text \<open>A sequence of cycles, one after the other.\<close>

fun run_cycles :: "config \<Rightarrow> cycle list \<Rightarrow> bot \<Rightarrow> bot" where
  "run_cycles cfg [] s = s"
| "run_cycles cfg (c # cs) s = run_cycles cfg cs (snd (run_once cfg c s))"

text \<open>
  The gateway calls made between two states, and the order submissions among calls.
\<close>

definition new_calls :: "bot \<Rightarrow> bot \<Rightarrow> (gw_call \<times> py_exn option) list" where
  "new_calls s s' = drop (length (calls s)) (calls s')"

fun submits_order :: "gw_call \<Rightarrow> bool" where
  "submits_order (CreateMarketBuyOrder _ _ _) = True"
| "submits_order (CreateMarketSellOrder _ _ _) = True"
| "submits_order _ = False"

definition submissions :: "(gw_call \<times> py_exn option) list \<Rightarrow> gw_call list" where
  "submissions cs = filter submits_order (map fst cs)"

text \<open>
  The idempotency key of a call: the \<^verbatim>\<open>clientOrderId\<close> entry of the \<^verbatim>\<open>params\<close> it
  was made with.
\<close>

fun idempotency_key :: "gw_call \<Rightarrow> string option" where
  "idempotency_key (CreateMarketBuyOrder _ _ params) = map_of params ''clientOrderId''"
| "idempotency_key (CreateMarketSellOrder _ _ params) = map_of params ''clientOrderId''"
| "idempotency_key _ = None"

text \<open>The positions the executor tracks: the content of its one field.\<close>

definition open_positions :: "bot \<Rightarrow> order list" where
  "open_positions s = (case current_position s of None \<Rightarrow> [] | Some p \<Rightarrow> [p])"

fun is_buy_note :: "notification \<Rightarrow> bool" where
  "is_buy_note (NotifyBuy _ _ _ _) = True"
| "is_buy_note _ = False"

fun is_sell_note :: "notification \<Rightarrow> bool" where
  "is_sell_note (NotifySell _ _ _ _ _) = True"
| "is_sell_note _ = False"

section \<open>data_handler.py: retry_on_network_error\<close>

text \<open>
  \<open>func k\<close> is what the \<open>k\<close>-th call of the zero-argument callable does: it returns a
  value (possibly \<^verbatim>\<open>None\<close>) or raises. The loop runs over \<^verbatim>\<open>range(max_retries)\<close>;
  the result comes with the number of times \<open>func\<close> was called.
\<close>

fun retry_attempts :: "(nat \<Rightarrow> py_exn + 'a option) \<Rightarrow> int \<Rightarrow> nat list \<Rightarrow> (py_exn + 'a option) \<times> nat" where
  "retry_attempts func max_retries [] = (Inr None, 0)"
| "retry_attempts func max_retries (attempt # rest) =
    (case func attempt of
       Inr v \<Rightarrow> (Inr v, 1)
     | Inl e \<Rightarrow>
        (if is_network_error e then
           (if int attempt < max_retries - 1
            then (case retry_attempts func max_retries rest of (r, n) \<Rightarrow> (r, n + 1))
            else (Inr None, 1))
         else (Inl e, 1)))"

definition retry_on_network_error :: "(nat \<Rightarrow> py_exn + 'a option) \<Rightarrow> int \<Rightarrow> (py_exn + 'a option) \<times> nat" where
  "retry_on_network_error func max_retries = retry_attempts func max_retries [0..<nat max_retries]"

section \<open>main.py: TradingBot.run_loop\<close>

text \<open>
  The loop sees a cycle only through what \<^verbatim>\<open>self.run_once()\<close> does: it returns a
  boolean (and the sleep that follows completes, or is cut by Ctrl+C), or an exception
  escapes it (and the ten-second sleep of the handler completes, or is cut by Ctrl+C,
  which then leaves the loop from inside the handler), or Ctrl+C arrives while it runs.
\<close>

datatype once_result =
  Returned bool
  | ReturnedThenInterrupted bool
  | RaisedException py_exn
  | RaisedExceptionThenInterrupted py_exn
  | RaisedKeyboardInterrupt

datatype stop_reason = MaxRetriesReached | MaxRetriesAfterException | UserInterrupt

datatype loop_state = Running nat | Stopped stop_reason nat

definition max_retries :: nat where
  "max_retries = 5"

text \<open>One pass through the body of \<^verbatim>\<open>while True\<close>, from the current \<^verbatim>\<open>retry_count\<close>.\<close>

fun loop_iteration :: "nat \<Rightarrow> once_result \<Rightarrow> loop_state" where
  "loop_iteration retry_count (Returned success) =
    (let rc = (if success then 0 else retry_count + 1) in
     if rc \<ge> max_retries then Stopped MaxRetriesReached rc else Running rc)"
| "loop_iteration retry_count (ReturnedThenInterrupted success) =
    (let rc = (if success then 0 else retry_count + 1) in
     if rc \<ge> max_retries then Stopped MaxRetriesReached rc else Stopped UserInterrupt rc)"
| "loop_iteration retry_count (RaisedException e) =
    (let rc = retry_count + 1 in
     if rc < max_retries then Running rc else Stopped MaxRetriesAfterException rc)"
| "loop_iteration retry_count (RaisedExceptionThenInterrupted e) =
    (let rc = retry_count + 1 in
     if rc < max_retries then Stopped UserInterrupt rc else Stopped MaxRetriesAfterException rc)"
| "loop_iteration retry_count RaisedKeyboardInterrupt = Stopped UserInterrupt retry_count"

text \<open>
  The loop over the cycles still to come; the second component counts the cycles
  started. \<open>Running\<close> as a result means that the loop has consumed the whole list and
  goes on.
\<close>

fun run_loop_from :: "nat \<Rightarrow> nat \<Rightarrow> once_result list \<Rightarrow> loop_state \<times> nat" where
  "run_loop_from retry_count n [] = (Running retry_count, n)"
| "run_loop_from retry_count n (r # rs) =
    (case loop_iteration retry_count r of
       Running rc \<Rightarrow> run_loop_from rc (n + 1) rs
     | Stopped why rc \<Rightarrow> (Stopped why rc, n + 1))"

definition run_loop :: "once_result list \<Rightarrow> loop_state \<times> nat" where
  "run_loop rs = run_loop_from 0 0 rs"

fun cycle_failed :: "once_result \<Rightarrow> bool" where
  "cycle_failed (Returned success) = (\<not> success)"
| "cycle_failed (ReturnedThenInterrupted success) = (\<not> success)"
| "cycle_failed (RaisedException e) = True"
| "cycle_failed (RaisedExceptionThenInterrupted e) = True"
| "cycle_failed RaisedKeyboardInterrupt = False"

fun is_stopped :: "loop_state \<Rightarrow> bool" where
  "is_stopped (Stopped _ _) = True"
| "is_stopped (Running _) = False"

section \<open>Scenarios\<close>

text \<open>
  Concrete settings, exchanges and states on which the properties below are exercised.
  \<open>market sig free quote fill\<close> is a cycle in which the strategy answers \<open>sig\<close>, the
  free USDT balance is \<open>free\<close>, the ticker quotes \<open>quote\<close> and the exchange fills
  every market order at price \<open>fill\<close> for the quantity requested.
\<close>

definition live_cfg :: config where
  "live_cfg = \<lparr>DRY_RUN = False, SYMBOL = ''BTC/USDT'', POSITION_SIZE_USDT = 20, time_bound = False\<rparr>"

definition gateway_order :: "string \<Rightarrow> string \<Rightarrow> real \<Rightarrow> real option \<Rightarrow> order" where
  "gateway_order sd smb fill qty =
    \<lparr>order_id = ''7001'', symbol = smb, otype = ''market'', side = sd,
     price = Some fill, amount = qty, cost = None\<rparr>"

definition market :: "signal \<Rightarrow> real \<Rightarrow> real \<Rightarrow> real \<Rightarrow> cycle" where
  "market sig free quote fill =
    \<lparr>fetch_ohlcv = Inr DataFrame,
     fetch_balance = Inr [''USDT'' \<mapsto> Some free],
     fetch_ticker = (\<lambda>smb. Inr (Some quote)),
     create_market_buy_order = (\<lambda>smb qty. Inr (gateway_order ''buy'' smb fill (Some qty))),
     create_market_sell_order = (\<lambda>smb qty. Inr (gateway_order ''sell'' smb fill qty)),
     run_strategy = Inr sig,
     now = 1700000000\<rparr>"

definition holding :: "real \<Rightarrow> real \<Rightarrow> bot" where
  "holding entry qty =
    \<lparr>current_position = Some (gateway_order ''buy'' ''BTC/USDT'' entry (Some qty)),
     calls = [], notifications = [], journal = []\<rparr>"

definition submission_raises :: "py_exn \<Rightarrow> cycle \<Rightarrow> cycle" where
  "submission_raises e c =
    c\<lparr>create_market_buy_order := (\<lambda>smb qty. Inl e),
      create_market_sell_order := (\<lambda>smb qty. Inl e)\<rparr>"

section \<open>Auxiliary facts\<close>

lemmas trace_defs = record_call_def notify_def log_decision_def raised_def

lemmas eval_defs = run_once_def data_handler_fetch_ohlcv_def has_open_position_def
  main_loop_error_def check_balance_def place_market_buy_def place_market_sell_def
  buy_failed_def sell_failed_def profit_pct_def Let_def truthy_def trace_defs
  new_calls_def submissions_def market_def live_cfg_def init_def gateway_order_def
  holding_def submission_raises_def

lemma new_calls_append [simp]: "calls s' = calls s @ cs \<Longrightarrow> new_calls s s' = cs"
  by (simp add: new_calls_def)

lemma profit_pct_Inr:
  "profit_pct cp bp = Inr pp \<longleftrightarrow> (\<exists>x e. cp = Some x \<and> bp = Some e \<and> e \<noteq> 0 \<and> pp = (x - e) / e * 100)"
  by (cases cp; cases bp) (auto simp: profit_pct_def)

lemma py_mul_Inr: "py_mul a b = Inr c \<longleftrightarrow> (\<exists>x y. a = Some x \<and> b = Some y \<and> c = x * y)"
  by (cases a; cases b) auto

lemma py_div_Inr: "py_div a b = Inr c \<longleftrightarrow> (\<exists>x y. a = Some x \<and> b = Some y \<and> y \<noteq> 0 \<and> c = x / y)"
  by (cases a; cases b) auto

lemma sell_notification:
  assumes "place_market_sell cfg ex clock smb a s = (Inr (Some ord), s')"
    and "current_position s = Some pos"
  shows "\<exists>x e c. price ord = Some x \<and> price pos = Some e \<and> e \<noteq> 0 \<and>
          notifications s' = notifications s @ [NotifySell smb x c ((x - e) / e * 100) (DRY_RUN cfg)]"
  using assms
  by (auto simp: place_market_sell_def Let_def sell_failed_def notify_def record_call_def profit_pct_Inr
      split: option.splits sum.splits if_splits)

lemma loop_iteration_bound:
  "loop_iteration k r = Running rc \<Longrightarrow> rc < max_retries"
  by (cases r) (auto simp: Let_def split: if_splits)

lemma loop_iteration_running:
  "loop_iteration k r = Running rc \<Longrightarrow> rc = (if cycle_failed r then k + 1 else 0)"
  by (cases r) (auto simp: Let_def split: if_splits)

lemma loop_iteration_failed:
  "cycle_failed r \<Longrightarrow> loop_iteration k r = Running rc \<Longrightarrow> rc = k + 1"
  by (drule loop_iteration_running) simp

lemma run_loop_from_snoc:
  "run_loop_from k n (xs @ [x]) =
    (case run_loop_from k n xs of
       (Running k', m) \<Rightarrow>
         (case loop_iteration k' x of
            Running rc \<Rightarrow> (Running rc, m + 1)
          | Stopped why rc \<Rightarrow> (Stopped why rc, m + 1))
     | (Stopped why rc, m) \<Rightarrow> (Stopped why rc, m))"
  by (induction xs arbitrary: k n) (auto split: loop_state.splits)

lemma run_loop_from_append:
  "run_loop_from k n (xs @ ys) =
    (case run_loop_from k n xs of
       (Running k', m) \<Rightarrow> run_loop_from k' m ys
     | (Stopped why rc, m) \<Rightarrow> (Stopped why rc, m))"
  by (induction xs arbitrary: k n) (auto split: loop_state.splits)

lemma run_loop_from_cycles: "snd (run_loop_from k n rs) \<le> n + length rs"
proof (induction rs arbitrary: k n)
  case Nil
  show ?case by simp
next
  case (Cons r rs)
  show ?case
  proof (cases "loop_iteration k r")
    case (Running rc)
    with Cons [of rc "n + 1"] show ?thesis by simp
  next
    case (Stopped why rc)
    then show ?thesis by simp
  qed
qed

lemma failures_stop_loop:
  "list_all cycle_failed fs \<Longrightarrow> k < max_retries \<Longrightarrow> max_retries \<le> k + length fs \<Longrightarrow>
   is_stopped (fst (run_loop_from k n fs))"
proof (induction fs arbitrary: k n)
  case Nil
  then show ?case by simp
next
  case (Cons r fs)
  show ?case
  proof (cases "loop_iteration k r")
    case (Running rc)
    with Cons.prems have "rc = k + 1" by (auto dest: loop_iteration_failed)
    moreover from Running have "rc < max_retries" by (rule loop_iteration_bound)
    ultimately show ?thesis using Cons Running by simp
  next
    case (Stopped why rc)
    then show ?thesis by simp
  qed
qed

lemma running_counter:
  "fst (run_loop_from 0 0 rs) = Running k \<Longrightarrow>
   k = length (takeWhile cycle_failed (rev rs)) \<and> k < max_retries"
proof (induction rs arbitrary: k rule: rev_induct)
  case Nil
  then show ?case by (simp add: max_retries_def)
next
  case (snoc x xs)
  obtain st m where r: "run_loop_from 0 0 xs = (st, m)" by (cases "run_loop_from 0 0 xs")
  from snoc.prems r obtain k' where st: "st = Running k'" and it: "loop_iteration k' x = Running k"
    by (cases st; cases "loop_iteration 0 x") (auto simp: run_loop_from_snoc split: loop_state.splits)
  from snoc.IH [of k'] r st have k': "k' = length (takeWhile cycle_failed (rev xs))" by simp
  from it have "k < max_retries" by (rule loop_iteration_bound)
  moreover from loop_iteration_running [OF it] k' have "k = length (takeWhile cycle_failed (rev (xs @ [x])))"
    by simp
  ultimately show ?case by simp
qed

lemma buy_effect:
  assumes "place_market_buy cfg ex clock smb a s = (r, s')"
  shows "journal s' = journal s
    \<and> (case r of
          Inr (Some ord) \<Rightarrow> current_position s' = Some ord
             \<and> (\<exists>p. notifications s' = notifications s @ [NotifyBuy smb p a (DRY_RUN cfg)])
        | Inr None \<Rightarrow> current_position s' = current_position s
             \<and> (\<exists>n. notifications s' = notifications s @ [NotifyError n])
        | Inl e \<Rightarrow> current_position s' = current_position s \<and> notifications s' = notifications s)"
  using assms
  by (auto simp: place_market_buy_def buy_failed_def Let_def trace_defs
      split: sum.splits option.splits if_splits)

lemma sell_effect:
  assumes "place_market_sell cfg ex clock smb a s = (r, s')"
  shows "journal s' = journal s
    \<and> (case r of
          Inr (Some ord) \<Rightarrow> current_position s \<noteq> None \<and> current_position s' = None
             \<and> (\<exists>p c pp. notifications s' = notifications s @ [NotifySell smb p c pp (DRY_RUN cfg)])
        | Inr None \<Rightarrow> current_position s' = current_position s
             \<and> (notifications s' = notifications s \<or> (\<exists>n. notifications s' = notifications s @ [NotifyError n]))
        | Inl e \<Rightarrow> current_position s' = current_position s \<and> notifications s' = notifications s)"
  using assms
  by (auto simp: place_market_sell_def sell_failed_def Let_def trace_defs
      split: sum.splits option.splits if_splits)

lemma check_balance_effect:
  "check_balance ex cur req s = (b, s') \<Longrightarrow>
   s' = record_call FetchBalance (fetch_balance ex) s"
  by (auto simp: check_balance_def Let_def split: sum.splits option.splits if_splits)


lemma buy_calls_disj:
  assumes "place_market_buy cfg ex clock smb a s = (r, s')"
  shows "(calls s' = calls s @ [(FetchTicker smb, raised (fetch_ticker ex smb))]
            \<and> (DRY_RUN cfg \<or> r = Inr None))
       \<or> (\<not> DRY_RUN cfg \<and> (\<exists>p. p \<noteq> 0 \<and> fetch_ticker ex smb = Inr (Some p)
            \<and> calls s' = calls s @ [(FetchTicker smb, None),
                 (CreateMarketBuyOrder smb (a / p) [], raised (create_market_buy_order ex smb (a / p)))]
            \<and> r = (case create_market_buy_order ex smb (a / p) of
                     Inl e \<Rightarrow> Inr None | Inr ord \<Rightarrow> Inr (Some ord))))"
  using assms
  by (auto simp: place_market_buy_def buy_failed_def Let_def trace_defs py_div_Inr
      split: sum.splits option.splits if_splits)

lemma buy_calls:
  assumes "place_market_buy cfg ex clock smb a s = (r, s')"
  obtains (nosub) "calls s' = calls s @ [(FetchTicker smb, raised (fetch_ticker ex smb))]"
      "DRY_RUN cfg \<or> r = Inr None"
  | (sub) p where "\<not> DRY_RUN cfg" "p \<noteq> 0" "fetch_ticker ex smb = Inr (Some p)"
      "calls s' = calls s @ [(FetchTicker smb, None),
         (CreateMarketBuyOrder smb (a / p) [], raised (create_market_buy_order ex smb (a / p)))]"
      "r = (case create_market_buy_order ex smb (a / p) of
              Inl e \<Rightarrow> Inr None | Inr ord \<Rightarrow> Inr (Some ord))"
  using buy_calls_disj [OF assms]
  apply -
  apply (erule disjE)
   apply (erule conjE, rule nosub, assumption, assumption)
  apply (elim conjE exE, rule sub, assumption+)
  done

lemma sell_calls_disj:
  assumes "place_market_sell cfg ex clock smb a s = (r, s')"
  shows "(current_position s = None \<and> s' = s \<and> r = Inr None)
       \<or> (DRY_RUN cfg \<and> calls s' = calls s @ [(FetchTicker smb, raised (fetch_ticker ex smb))])
       \<or> (\<not> DRY_RUN cfg \<and> (\<exists>pos. current_position s = Some pos
            \<and> calls s' = calls s @ [(CreateMarketSellOrder smb (case a of None \<Rightarrow> amount pos | Some v \<Rightarrow> Some v) [],
                  raised (create_market_sell_order ex smb (case a of None \<Rightarrow> amount pos | Some v \<Rightarrow> Some v)))]
            \<and> (\<forall>e. create_market_sell_order ex smb (case a of None \<Rightarrow> amount pos | Some v \<Rightarrow> Some v) = Inl e \<longrightarrow>
                  r = Inr None \<and> current_position s' = Some pos
                  \<and> notifications s' = notifications s @ [NotifyError (SellError e)]
                  \<and> journal s' = journal s)))"
  using assms
  by (auto simp: place_market_sell_def sell_failed_def Let_def trace_defs
      split: sum.splits option.splits if_splits)

lemma sell_calls:
  assumes "place_market_sell cfg ex clock smb a s = (r, s')"
  obtains (nopos) "current_position s = None"
  | (dry) "DRY_RUN cfg" "calls s' = calls s @ [(FetchTicker smb, raised (fetch_ticker ex smb))]"
  | (sub) pos where "\<not> DRY_RUN cfg" "current_position s = Some pos"
      "calls s' = calls s @ [(CreateMarketSellOrder smb (case a of None \<Rightarrow> amount pos | Some v \<Rightarrow> Some v) [],
            raised (create_market_sell_order ex smb (case a of None \<Rightarrow> amount pos | Some v \<Rightarrow> Some v)))]"
      "\<forall>e. create_market_sell_order ex smb (case a of None \<Rightarrow> amount pos | Some v \<Rightarrow> Some v) = Inl e \<longrightarrow>
            r = Inr None \<and> current_position s' = Some pos
            \<and> notifications s' = notifications s @ [NotifyError (SellError e)]
            \<and> journal s' = journal s"
  using sell_calls_disj [OF assms]
  apply -
  apply (erule disjE)
   apply (elim conjE, rule nopos, assumption)
  apply (erule disjE)
   apply (erule conjE, rule dry, assumption, assumption)
  apply (elim conjE exE, rule sub, assumption+)
  done

lemma new_calls_trans:
  "calls s1 = calls s @ xs \<Longrightarrow> calls s2 = calls s1 @ ys \<Longrightarrow> new_calls s s2 = xs @ ys"
  by (simp add: new_calls_def)

lemma run_once_shape:
  assumes run: "run_once cfg c s = (b, s')"
  shows "((\<exists>cs. calls s' = calls s @ cs \<and> submissions cs = [])
          \<and> (\<not> DRY_RUN cfg \<longrightarrow> current_position s' = current_position s))
    \<or> (\<not> DRY_RUN cfg \<and> current_position s = None \<and> run_strategy c = Inr BUY \<and>
        (\<exists>p. p \<noteq> 0 \<and> fetch_ticker c (SYMBOL cfg) = Inr (Some p) \<and>
           calls s' = calls s @ [(FetchOHLCV, None), (FetchBalance, None), (FetchTicker (SYMBOL cfg), None),
              (CreateMarketBuyOrder (SYMBOL cfg) (POSITION_SIZE_USDT cfg / p) [],
               raised (create_market_buy_order c (SYMBOL cfg) (POSITION_SIZE_USDT cfg / p)))] \<and>
           current_position s' =
             (case create_market_buy_order c (SYMBOL cfg) (POSITION_SIZE_USDT cfg / p) of
                Inl e \<Rightarrow> None | Inr ord \<Rightarrow> Some ord)))
    \<or> (\<not> DRY_RUN cfg \<and> run_strategy c = Inr SELL \<and>
        (\<exists>pos. current_position s = Some pos \<and>
           calls s' = calls s @ [(FetchOHLCV, None),
              (CreateMarketSellOrder (SYMBOL cfg) (amount pos) [],
               raised (create_market_sell_order c (SYMBOL cfg) (amount pos)))] \<and>
           (\<forall>e. create_market_sell_order c (SYMBOL cfg) (amount pos) = Inl e \<longrightarrow>
              b \<and> current_position s' = Some pos \<and>
              notifications s' = notifications s @ [NotifyError (SellError e)] \<and>
              journal s' = journal s @ [SellFailed])))"
    (is "?quiet \<or> ?buy \<or> ?sell")
proof (cases "fetch_ohlcv c")
  case (Inl e)
  with run have "?quiet"
    by (auto simp: run_once_def data_handler_fetch_ohlcv_def trace_defs submissions_def)
  then show ?thesis by blast
next
  case (Inr df)
  let ?s0 = "record_call FetchOHLCV (fetch_ohlcv c) s"
  have s0: "calls ?s0 = calls s @ [(FetchOHLCV, None)]" "current_position ?s0 = current_position s"
    "notifications ?s0 = notifications s" "journal ?s0 = journal s"
    using Inr by (simp_all add: trace_defs)
  show ?thesis
  proof (cases "run_strategy c")
    case (Inl e)
    with run Inr have "?quiet"
      by (auto simp: run_once_def data_handler_fetch_ohlcv_def main_loop_error_def trace_defs submissions_def)
    then show ?thesis by blast
  next
    case sig: (Inr sg)
    show ?thesis
    proof (cases sg)
      case WAIT
      with run Inr sig have "?quiet"
        by (auto simp: run_once_def data_handler_fetch_ohlcv_def trace_defs submissions_def)
      then show ?thesis by blast
    next
      case BUY
      show ?thesis
      proof (cases "current_position s")
        case (Some pos)
        with run Inr sig BUY have "?quiet"
          by (auto simp: run_once_def data_handler_fetch_ohlcv_def has_open_position_def trace_defs submissions_def)
        then show ?thesis by blast
      next
        case None
        let ?s1 = "record_call FetchBalance (fetch_balance c) ?s0"
        obtain ok where cb: "check_balance c ''USDT'' (Some (POSITION_SIZE_USDT cfg)) ?s0 = (ok, ?s1)"
          using check_balance_effect [of c "''USDT''" "Some (POSITION_SIZE_USDT cfg)" ?s0]
          by (cases "check_balance c ''USDT'' (Some (POSITION_SIZE_USDT cfg)) ?s0") auto
        have s1: "calls ?s1 = calls s @ [(FetchOHLCV, None), (FetchBalance, raised (fetch_balance c))]"
          "current_position ?s1 = current_position s"
          "notifications ?s1 = notifications s" "journal ?s1 = journal s"
          using Inr by (simp_all add: trace_defs)
        show ?thesis
        proof (cases ok)
          case False
          with run Inr sig BUY None cb have "s' = log_decision InsufficientBalance ?s1"
            by (simp add: run_once_def data_handler_fetch_ohlcv_def has_open_position_def record_call_def)
          with s1 have "?quiet"
            by (simp add: log_decision_def submissions_def)
          then show ?thesis by blast
        next
          case True
          then have okb: "fetch_balance c \<noteq> Inl e" for e
            using cb by (auto simp: check_balance_def Let_def)
          then have rb: "raised (fetch_balance c) = None"
            by (cases "fetch_balance c") (auto simp: raised_def)
          obtain r s2 where pmb: "place_market_buy cfg c (now c) (SYMBOL cfg) (POSITION_SIZE_USDT cfg) ?s1 = (r, s2)"
            by (cases "place_market_buy cfg c (now c) (SYMBOL cfg) (POSITION_SIZE_USDT cfg) ?s1")
          from run Inr sig BUY None cb True pmb
          have s': "calls s' = calls s2" "current_position s' = current_position s2"
            by (auto simp: run_once_def data_handler_fetch_ohlcv_def has_open_position_def
                  main_loop_error_def trace_defs split: sum.splits option.splits)
          from buy_effect [OF pmb] have pos2:
            "current_position s2 = (case r of Inr (Some ord) \<Rightarrow> Some ord | _ \<Rightarrow> current_position s)"
            using s1 by (auto split: sum.splits option.splits)
          from pmb show ?thesis
          proof (cases rule: buy_calls)
            case nosub
            note c2 = nosub(1) and d = nosub(2)
            from c2 s1 s' have "\<exists>cs. calls s' = calls s @ cs \<and> submissions cs = []"
              by (simp add: submissions_def)
            moreover have "\<not> DRY_RUN cfg \<longrightarrow> current_position s' = current_position s"
              using d pos2 s' by auto
            ultimately have "?quiet" by blast
            then show ?thesis by blast
          next
            case (sub p)
            note live = sub(1) and p = sub(2) and tk = sub(3) and c2 = sub(4) and r = sub(5)
            from c2 s1 s' rb have "calls s' = calls s @ [(FetchOHLCV, None), (FetchBalance, None),
                (FetchTicker (SYMBOL cfg), None),
                (CreateMarketBuyOrder (SYMBOL cfg) (POSITION_SIZE_USDT cfg / p) [],
                 raised (create_market_buy_order c (SYMBOL cfg) (POSITION_SIZE_USDT cfg / p)))]"
              by simp
            moreover from r pos2 s' None have "current_position s' =
                (case create_market_buy_order c (SYMBOL cfg) (POSITION_SIZE_USDT cfg / p) of
                   Inl e \<Rightarrow> None | Inr ord \<Rightarrow> Some ord)"
              by (auto split: sum.splits)
            ultimately have "?buy" using live p tk None sig BUY by blast
            then show ?thesis by blast
          qed
        qed
      qed
    next
      case SELL
      show ?thesis
      proof (cases "current_position s")
        case None
        with run Inr sig SELL have "?quiet"
          by (auto simp: run_once_def data_handler_fetch_ohlcv_def has_open_position_def trace_defs submissions_def)
        then show ?thesis by blast
      next
        case (Some pos)
        obtain r s1 where pms: "place_market_sell cfg c (now c) (SYMBOL cfg) None ?s0 = (r, s1)"
          by (cases "place_market_sell cfg c (now c) (SYMBOL cfg) None ?s0")
        from run Inr sig SELL Some pms
        have s': "calls s' = calls s1" "current_position s' = current_position s1"
          by (auto simp: run_once_def data_handler_fetch_ohlcv_def has_open_position_def
                main_loop_error_def trace_defs split: sum.splits option.splits)
        from run Inr sig SELL Some pms
        have rn: "r = Inr None \<Longrightarrow> b \<and> s' = log_decision SellFailed s1"
          by (auto simp: run_once_def data_handler_fetch_ohlcv_def has_open_position_def record_call_def)
        from pms show ?thesis
        proof (cases rule: sell_calls)
          case nopos
          with Some s0 show ?thesis by simp
        next
          case dry
          note c1 = dry(2)
          from c1 s0 s' have "\<exists>cs. calls s' = calls s @ cs \<and> submissions cs = []"
            by (simp add: submissions_def)
          with dry(1) have "?quiet" by blast
          then show ?thesis by blast
        next
          case (sub pos')
          note live = sub(1) and pos' = sub(2) and c1 = sub(3) and rej = sub(4)
          from pos' Some s0 have pp: "pos' = pos" by simp
          from c1 s0 s' pp have nc: "calls s' = calls s @ [(FetchOHLCV, None),
              (CreateMarketSellOrder (SYMBOL cfg) (amount pos) [],
               raised (create_market_sell_order c (SYMBOL cfg) (amount pos)))]"
            by simp
          have "b \<and> current_position s' = Some pos \<and>
              notifications s' = notifications s @ [NotifyError (SellError e)] \<and>
              journal s' = journal s @ [SellFailed]"
            if e: "create_market_sell_order c (SYMBOL cfg) (amount pos) = Inl e" for e
          proof -
            from rej e pp have "r = Inr None" and s1: "current_position s1 = Some pos"
              "notifications s1 = notifications ?s0 @ [NotifyError (SellError e)]"
              "journal s1 = journal ?s0"
              by auto
            from rn [OF \<open>r = Inr None\<close>] s1 s0 show ?thesis
              by (simp add: trace_defs)
          qed
          with live sig SELL Some nc have "?sell" by blast
          then show ?thesis by blast
        qed
      qed
    qed
  qed
qed

lemma run_once_kinds:
  obtains (quiet) cs where "calls (snd (run_once cfg c s)) = calls s @ cs" "submissions cs = []"
      "\<not> DRY_RUN cfg \<longrightarrow> current_position (snd (run_once cfg c s)) = current_position s"
  | (buy) p where "\<not> DRY_RUN cfg" "current_position s = None" "run_strategy c = Inr BUY"
      "p \<noteq> 0" "fetch_ticker c (SYMBOL cfg) = Inr (Some p)"
      "calls (snd (run_once cfg c s)) = calls s @ [(FetchOHLCV, None), (FetchBalance, None),
          (FetchTicker (SYMBOL cfg), None),
          (CreateMarketBuyOrder (SYMBOL cfg) (POSITION_SIZE_USDT cfg / p) [],
           raised (create_market_buy_order c (SYMBOL cfg) (POSITION_SIZE_USDT cfg / p)))]"
      "current_position (snd (run_once cfg c s)) =
         (case create_market_buy_order c (SYMBOL cfg) (POSITION_SIZE_USDT cfg / p) of
            Inl e \<Rightarrow> None | Inr ord \<Rightarrow> Some ord)"
  | (sell) pos where "\<not> DRY_RUN cfg" "run_strategy c = Inr SELL" "current_position s = Some pos"
      "calls (snd (run_once cfg c s)) = calls s @ [(FetchOHLCV, None),
          (CreateMarketSellOrder (SYMBOL cfg) (amount pos) [],
           raised (create_market_sell_order c (SYMBOL cfg) (amount pos)))]"
      "\<forall>e. create_market_sell_order c (SYMBOL cfg) (amount pos) = Inl e \<longrightarrow>
          fst (run_once cfg c s) \<and> current_position (snd (run_once cfg c s)) = Some pos \<and>
          notifications (snd (run_once cfg c s)) = notifications s @ [NotifyError (SellError e)] \<and>
          journal (snd (run_once cfg c s)) = journal s @ [SellFailed]"
  using run_once_shape [of cfg c s "fst (run_once cfg c s)" "snd (run_once cfg c s)", OF prod.collapse [symmetric]]
  apply -
  apply (erule disjE)
   apply (elim conjE exE, rule quiet, assumption+)
  apply (erule disjE)
   apply (elim conjE exE, rule buy, assumption+)
  apply (elim conjE exE, rule sell, assumption+)
  done

lemma no_submission_mem: "submissions cs = [] \<Longrightarrow> (g, r) \<in> set cs \<Longrightarrow> \<not> submits_order g"
  by (auto simp: submissions_def filter_empty_conv)

lemma raised_None: "raised r = None \<longleftrightarrow> (\<exists>v. r = Inr v)"
  by (cases r) (simp_all add: raised_def)

lemma raised_Some: "raised r = Some e \<longleftrightarrow> r = Inl e"
  by (cases r) (simp_all add: raised_def)

lemma positioned_buy_cycle:
  assumes "current_position s \<noteq> None" and "run_strategy c = Inr BUY"
  shows "run_once cfg c s =
    (case fetch_ohlcv c of
       Inl e \<Rightarrow> (False, log_decision DataUnavailable (record_call FetchOHLCV (fetch_ohlcv c) s))
     | Inr df \<Rightarrow> (True, log_decision AlreadyPositioned (record_call FetchOHLCV (fetch_ohlcv c) s)))"
  using assms
  by (simp add: run_once_def data_handler_fetch_ohlcv_def has_open_position_def record_call_def
      split: sum.splits)

lemma sell_cycle_submits:
  assumes "\<not> DRY_RUN cfg" and "current_position s = Some pos"
    and "fetch_ohlcv c = Inr df" and "run_strategy c = Inr SELL"
  shows "calls (snd (run_once cfg c s)) = calls s @ [(FetchOHLCV, None),
           (CreateMarketSellOrder (SYMBOL cfg) (amount pos) [],
            raised (create_market_sell_order c (SYMBOL cfg) (amount pos)))]"
  using assms
  by (simp add: run_once_def data_handler_fetch_ohlcv_def has_open_position_def
        place_market_sell_def sell_failed_def main_loop_error_def Let_def trace_defs
      split: sum.splits option.splits)

lemma retry_all_network_errors:
  assumes "\<forall>k<nat m. \<exists>e. func k = Inl e \<and> is_network_error e"
  shows "i < nat m \<Longrightarrow> retry_attempts func m [i..<nat m] = (Inr None, nat m - i)"
proof (induction "nat m - i" arbitrary: i)
  case 0
  then show ?case by simp
next
  case (Suc d)
  from Suc.prems assms obtain e where e: "func i = Inl e" "is_network_error e" by blast
  from Suc.prems have upt: "[i..<nat m] = i # [Suc i..<nat m]" by (simp add: upt_conv_Cons)
  show ?case
  proof (cases "Suc i < nat m")
    case True
    with Suc.hyps have "retry_attempts func m [Suc i..<nat m] = (Inr None, nat m - Suc i)"
      by (intro Suc.hyps(1)) auto
    moreover from True have "int i < m - 1" and "Suc (nat m - Suc i) = nat m - i" by linarith+
    ultimately show ?thesis using e upt by simp
  next
    case False
    with Suc.prems have n: "nat m = Suc i" by simp
    then have "\<not> int i < m - 1" by linarith
    with n e upt show ?thesis by simp
  qed
qed

lemma submissions_append: "submissions (xs @ ys) = submissions xs @ submissions ys"
  by (simp add: submissions_def)

lemma run_once_keys:
  assumes "set (map idempotency_key (submissions (calls s))) \<subseteq> {None}"
  shows "set (map idempotency_key (submissions (calls (snd (run_once cfg c s))))) \<subseteq> {None}"
proof (cases cfg c s rule: run_once_kinds)
  case (quiet cs)
  with assms show ?thesis by (simp add: submissions_append)
next
  case (buy p)
  with assms show ?thesis by (simp add: submissions_append) (simp add: submissions_def)
next
  case (sell pos)
  with assms show ?thesis by (simp add: submissions_append) (simp add: submissions_def)
qed

lemma run_cycles_keys:
  "set (map idempotency_key (submissions (calls s))) \<subseteq> {None} \<Longrightarrow>
   set (map idempotency_key (submissions (calls (run_cycles cfg cs s)))) \<subseteq> {None}"
proof (induction cs arbitrary: s)
  case Nil
  then show ?case by simp
next
  case (Cons c cs)
  from Cons.prems
  have "set (map idempotency_key (submissions (calls (snd (run_once cfg c s))))) \<subseteq> {None}"
    by (rule run_once_keys)
  then have "set (map idempotency_key
      (submissions (calls (run_cycles cfg cs (snd (run_once cfg c s)))))) \<subseteq> {None}"
    by (rule Cons.IH)
  then show ?case by simp
qed

lemma run_once_one_submission: "length (submissions (new_calls s (snd (run_once cfg c s)))) \<le> 1"
proof (cases cfg c s rule: run_once_kinds)
  case (quiet cs)
  then show ?thesis by simp
next
  case (buy p)
  then show ?thesis by (simp add: submissions_def)
next
  case (sell pos)
  then show ?thesis by (simp add: submissions_def)
qed

lemma run_once_ledger:
  assumes inv: "length (filter is_buy_note (notifications s))
      = length (filter is_sell_note (notifications s)) + length (open_positions s)"
  shows "length (filter is_buy_note (notifications (snd (run_once cfg c s))))
      = length (filter is_sell_note (notifications (snd (run_once cfg c s))))
        + length (open_positions (snd (run_once cfg c s)))"
proof (cases "fetch_ohlcv c")
  case (Inl e)
  with inv show ?thesis
    by (simp add: run_once_def data_handler_fetch_ohlcv_def trace_defs open_positions_def)
next
  case (Inr df)
  let ?s0 = "record_call FetchOHLCV (fetch_ohlcv c) s"
  have s0: "current_position ?s0 = current_position s" "notifications ?s0 = notifications s"
    by (simp_all add: trace_defs)
  show ?thesis
  proof (cases "run_strategy c")
    case (Inl e)
    with inv Inr show ?thesis
      by (simp add: run_once_def data_handler_fetch_ohlcv_def main_loop_error_def trace_defs open_positions_def)
  next
    case sig: (Inr sg)
    show ?thesis
    proof (cases sg)
      case WAIT
      with inv Inr sig show ?thesis
        by (simp add: run_once_def data_handler_fetch_ohlcv_def trace_defs open_positions_def)
    next
      case BUY
      show ?thesis
      proof (cases "current_position s")
        case (Some pos)
        with inv Inr sig BUY show ?thesis
          by (simp add: run_once_def data_handler_fetch_ohlcv_def has_open_position_def trace_defs open_positions_def)
      next
        case None
        let ?s1 = "record_call FetchBalance (fetch_balance c) ?s0"
        obtain ok where cb: "check_balance c ''USDT'' (Some (POSITION_SIZE_USDT cfg)) ?s0 = (ok, ?s1)"
          using check_balance_effect [of c "''USDT''" "Some (POSITION_SIZE_USDT cfg)" ?s0]
          by (cases "check_balance c ''USDT'' (Some (POSITION_SIZE_USDT cfg)) ?s0") auto
        have s1: "current_position ?s1 = None" "notifications ?s1 = notifications s"
          using None by (simp_all add: trace_defs)
        show ?thesis
        proof (cases ok)
          case False
          with Inr sig BUY None cb have "snd (run_once cfg c s) = log_decision InsufficientBalance ?s1"
            by (simp add: run_once_def data_handler_fetch_ohlcv_def has_open_position_def record_call_def)
          with inv s1 None show ?thesis
            by (simp add: log_decision_def open_positions_def)
        next
          case True
          obtain r s2 where pmb: "place_market_buy cfg c (now c) (SYMBOL cfg) (POSITION_SIZE_USDT cfg) ?s1 = (r, s2)"
            by (cases "place_market_buy cfg c (now c) (SYMBOL cfg) (POSITION_SIZE_USDT cfg) ?s1")
          from Inr sig BUY None cb True pmb
          have s': "current_position (snd (run_once cfg c s)) = current_position s2"
            "filter is_buy_note (notifications (snd (run_once cfg c s))) = filter is_buy_note (notifications s2)"
            "filter is_sell_note (notifications (snd (run_once cfg c s))) = filter is_sell_note (notifications s2)"
            by (auto simp: run_once_def data_handler_fetch_ohlcv_def has_open_position_def
                  main_loop_error_def trace_defs split: sum.splits option.splits)
          from buy_effect [OF pmb] s1 inv None
          have "length (filter is_buy_note (notifications s2))
              = length (filter is_sell_note (notifications s2)) + length (open_positions s2)"
            by (auto simp: open_positions_def split: sum.splits option.splits)
          with s' show ?thesis by (simp add: open_positions_def)
        qed
      qed
    next
      case SELL
      show ?thesis
      proof (cases "current_position s")
        case None
        with inv Inr sig SELL show ?thesis
          by (simp add: run_once_def data_handler_fetch_ohlcv_def has_open_position_def trace_defs open_positions_def)
      next
        case (Some pos)
        obtain r s1 where pms: "place_market_sell cfg c (now c) (SYMBOL cfg) None ?s0 = (r, s1)"
          by (cases "place_market_sell cfg c (now c) (SYMBOL cfg) None ?s0")
        from Inr sig SELL Some pms
        have s': "current_position (snd (run_once cfg c s)) = current_position s1"
          "filter is_buy_note (notifications (snd (run_once cfg c s))) = filter is_buy_note (notifications s1)"
          "filter is_sell_note (notifications (snd (run_once cfg c s))) = filter is_sell_note (notifications s1)"
          by (auto simp: run_once_def data_handler_fetch_ohlcv_def has_open_position_def
                main_loop_error_def trace_defs split: sum.splits option.splits)
        from sell_effect [OF pms] s0 inv Some
        have "length (filter is_buy_note (notifications s1))
            = length (filter is_sell_note (notifications s1)) + length (open_positions s1)"
          by (auto simp: open_positions_def split: sum.splits option.splits)
        with s' show ?thesis by (simp add: open_positions_def)
      qed
    qed
  qed
qed

lemma run_cycles_ledger:
  "length (filter is_buy_note (notifications s))
      = length (filter is_sell_note (notifications s)) + length (open_positions s) \<Longrightarrow>
   length (filter is_buy_note (notifications (run_cycles cfg cs s)))
      = length (filter is_sell_note (notifications (run_cycles cfg cs s)))
        + length (open_positions (run_cycles cfg cs s))"
proof (induction cs arbitrary: s)
  case Nil
  then show ?case by simp
next
  case (Cons c cs)
  from Cons.prems
  have "length (filter is_buy_note (notifications (snd (run_once cfg c s))))
      = length (filter is_sell_note (notifications (snd (run_once cfg c s))))
        + length (open_positions (snd (run_once cfg c s)))"
    by (rule run_once_ledger)
  then have "length (filter is_buy_note (notifications (run_cycles cfg cs (snd (run_once cfg c s)))))
      = length (filter is_sell_note (notifications (run_cycles cfg cs (snd (run_once cfg c s)))))
        + length (open_positions (run_cycles cfg cs (snd (run_once cfg c s))))"
    by (rule Cons.IH)
  then show ?case by simp
qed

section \<open>Balance check\<close>

text \<open>
  Claim C6. For a BUY signal, when the free USDT balance reported by the gateway is less
  than the required notional \<^verbatim>\<open>POSITION_SIZE_USDT\<close>, the cycle submits no order and
  leaves the position as it was. When the signal is reached with no position open, the
  cycle consists of exactly the candle fetch and the balance query, and ends with the
  log line of the insufficient balance (the source reports the rejection in the log and
  returns \<^verbatim>\<open>True\<close>; it has no error value named InsufficientFunds for this case).
\<close>

theorem insufficient_balance_no_order:
  assumes "run_strategy c = Inr BUY"
    and "fetch_balance c = Inr bal" and "bal ''USDT'' = Some (Some free)"
    and "free < POSITION_SIZE_USDT cfg"
  shows "submissions (new_calls s (snd (run_once cfg c s))) = []
       \<and> current_position (snd (run_once cfg c s)) = current_position s
       \<and> (current_position s = None \<and> fetch_ohlcv c = Inr df \<longrightarrow>
            run_once cfg c s = (True, s\<lparr>calls := calls s @ [(FetchOHLCV, None), (FetchBalance, None)],
                 journal := journal s @ [InsufficientBalance]\<rparr>))"
  using assms
  by (auto simp: run_once_def data_handler_fetch_ohlcv_def has_open_position_def
        check_balance_def Let_def truthy_def trace_defs new_calls_def submissions_def
      split: sum.splits option.splits prod.splits bool.splits)

text \<open>The scenario of the specification: balance 15 USDT, required 20 USDT.\<close>

theorem insufficient_balance_no_order_witness:
  "run_once live_cfg (market BUY 15 100 100) init =
     (True, \<lparr>current_position = None, calls = [(FetchOHLCV, None), (FetchBalance, None)],
             notifications = [], journal = [InsufficientBalance]\<rparr>)
   \<and> submissions (new_calls init (snd (run_once live_cfg (market BUY 15 100 100) init))) = []"
  using insufficient_balance_no_order
    [of "market BUY 15 100 100" "[''USDT'' \<mapsto> Some 15]" 15 live_cfg init DataFrame]
  by (simp add: market_def live_cfg_def init_def submissions_def)

text \<open>
  Claim C10. When fetching the balance raises, \<^verbatim>\<open>check_balance\<close> returns \<^verbatim>\<open>False\<close>
  (having made that one gateway call); a cycle with a BUY signal whose balance query
  raises submits no order and leaves the position unchanged; and with no required amount
  the check returns whether the free balance is strictly positive.
\<close>

theorem balance_check_failure_is_insufficient:
  "(fetch_balance ex = Inl e \<longrightarrow>
      check_balance ex cur req s = (False, record_call FetchBalance (Inl e :: py_exn + balances) s))
   \<and> (run_strategy c = Inr BUY \<and> fetch_balance c = Inl e' \<longrightarrow>
        submissions (new_calls s (snd (run_once cfg c s))) = []
        \<and> current_position (snd (run_once cfg c s)) = current_position s)
   \<and> (fetch_balance ex' = Inr bal \<and> bal cur = Some (Some free) \<longrightarrow>
        fst (check_balance ex' cur None s) = (0 < free))"
  by (auto simp: run_once_def data_handler_fetch_ohlcv_def has_open_position_def
        check_balance_def Let_def truthy_def trace_defs new_calls_def submissions_def
      split: sum.splits option.splits prod.splits bool.splits)

theorem balance_check_failure_is_insufficient_witness:
  "fst (check_balance ((market BUY 50 100 100)\<lparr>fetch_balance := Inl NetworkError\<rparr>) ''USDT'' (Some 20) init) = False
   \<and> submissions (new_calls init (snd (run_once live_cfg
         ((market BUY 50 100 100)\<lparr>fetch_balance := Inl NetworkError\<rparr>) init))) = []
   \<and> fst (check_balance (market BUY 50 100 100) ''USDT'' None init) = True"
  using balance_check_failure_is_insufficient
    [of "(market BUY 50 100 100)\<lparr>fetch_balance := Inl NetworkError\<rparr>" NetworkError "''USDT''" "Some 20" init
      "(market BUY 50 100 100)\<lparr>fetch_balance := Inl NetworkError\<rparr>" NetworkError live_cfg
      "market BUY 50 100 100" "[''USDT'' \<mapsto> Some 50]" 50]
  by (simp add: market_def submissions_def)

section \<open>Profit of a sell\<close>

text \<open>
  Claim C8. Whenever \<^verbatim>\<open>place_market_sell\<close> returns an order (the sell is filled), the
  position held an entry price \<open>e \<noteq> 0\<close>, the order has an exit price \<open>x\<close>, and the one
  notification sent reports the profit \<open>(x - e) / e * 100\<close>. In particular entry 50000
  and exit 51500 give 3, entry 100 and exit 97 give -3 (floats idealised as reals; the
  notification prints the number with two decimals and a sign).
\<close>

theorem sell_reports_profit_pct:
  assumes "place_market_sell cfg ex clock smb a s = (Inr (Some ord), s')"
    and "current_position s = Some pos"
  shows "(\<exists>x e c. price ord = Some x \<and> price pos = Some e \<and> e \<noteq> 0 \<and>
          notifications s' = notifications s @ [NotifySell smb x c ((x - e) / e * 100) (DRY_RUN cfg)])
      \<and> profit_pct (Some 51500) (Some 50000) = Inr 3
      \<and> profit_pct (Some 97) (Some 100) = Inr (- 3)"
proof (intro conjI)
  show "\<exists>x e c. price ord = Some x \<and> price pos = Some e \<and> e \<noteq> 0 \<and>
          notifications s' = notifications s @ [NotifySell smb x c ((x - e) / e * 100) (DRY_RUN cfg)]"
    by (rule sell_notification [OF assms])
  show "profit_pct (Some 51500) (Some 50000) = Inr 3"
    by (simp add: profit_pct_def)
  show "profit_pct (Some 97) (Some 100) = Inr (- 3)"
    by (simp add: profit_pct_def)
qed

theorem sell_reports_profit_pct_witness:
  "place_market_sell live_cfg (market SELL 0 51400 51500) 0 ''BTC/USDT'' None (holding 50000 2) =
     (Inr (Some (gateway_order ''sell'' ''BTC/USDT'' 51500 (Some 2))),
      \<lparr>current_position = None,
       calls = [(CreateMarketSellOrder ''BTC/USDT'' (Some 2) [], None)],
       notifications = [NotifySell ''BTC/USDT'' 51500 103000 3 False],
       journal = []\<rparr>)
   \<and> (\<exists>x e c. price (gateway_order ''sell'' ''BTC/USDT'' 51500 (Some 2)) = Some x
        \<and> price (gateway_order ''buy'' ''BTC/USDT'' 50000 (Some 2)) = Some e \<and> e \<noteq> 0
        \<and> [NotifySell ''BTC/USDT'' 51500 103000 3 False]
            = [NotifySell ''BTC/USDT'' x c ((x - e) / e * 100) False])"
proof -
  have h: "place_market_sell live_cfg (market SELL 0 51400 51500) 0 ''BTC/USDT'' None (holding 50000 2) =
     (Inr (Some (gateway_order ''sell'' ''BTC/USDT'' 51500 (Some 2))),
      \<lparr>current_position = None,
       calls = [(CreateMarketSellOrder ''BTC/USDT'' (Some 2) [], None)],
       notifications = [NotifySell ''BTC/USDT'' 51500 103000 3 False],
       journal = []\<rparr>)"
    by (simp add: place_market_sell_def holding_def market_def live_cfg_def gateway_order_def
        profit_pct_def notify_def record_call_def raised_def Let_def)
  have p: "current_position (holding 50000 2) = Some (gateway_order ''buy'' ''BTC/USDT'' 50000 (Some 2))"
    by (simp add: holding_def)
  show ?thesis
    using h sell_reports_profit_pct [OF h p] by (simp add: holding_def live_cfg_def)
qed

section \<open>Run loop\<close>

text \<open>
  Claim C9. While the loop runs, \<^verbatim>\<open>retry_count\<close> is the number of failed cycles since
  the last successful one (a successful cycle resets it to zero, a failed one adds one)
  and stays below \<^verbatim>\<open>max_retries\<close> = 5. Once five consecutive cycles have failed the
  loop has stopped, whatever would follow, and no cycle beyond those five was started:
  a failed cycle with the counter at four ends the loop with the report that the retry
  limit is reached.
\<close>

theorem run_loop_failure_counter:
  "(fst (run_loop rs) = Running k \<longrightarrow>
      k = length (takeWhile cycle_failed (rev rs)) \<and> k < max_retries)
   \<and> (length fails = max_retries \<and> list_all cycle_failed fails \<longrightarrow>
        is_stopped (fst (run_loop (pre @ fails @ post)))
        \<and> snd (run_loop (pre @ fails @ post)) \<le> length pre + max_retries)
   \<and> loop_iteration k0 (Returned True) = Running 0
   \<and> (k1 + 1 < max_retries \<longrightarrow> loop_iteration k1 (Returned False) = Running (k1 + 1))
   \<and> (max_retries \<le> k2 + 1 \<longrightarrow> loop_iteration k2 (Returned False) = Stopped MaxRetriesReached (k2 + 1))
   \<and> max_retries = 5"
proof (intro conjI impI)
  assume "fst (run_loop rs) = Running k"
  then show "k = length (takeWhile cycle_failed (rev rs))" and "k < max_retries"
    using running_counter [of rs k] by (simp_all add: run_loop_def)
next
  assume a: "length fails = max_retries \<and> list_all cycle_failed fails"
  obtain st m where r: "run_loop_from 0 0 pre = (st, m)" by (cases "run_loop_from 0 0 pre")
  have m: "m \<le> length pre" using run_loop_from_cycles [of 0 0 pre] r by simp
  show "is_stopped (fst (run_loop (pre @ fails @ post)))"
  proof (cases st)
    case (Running k')
    with r have "k' < max_retries" using running_counter [of pre k'] by simp
    with a have "is_stopped (fst (run_loop_from k' m fails))"
      by (intro failures_stop_loop) simp_all
    with r Running show ?thesis
      by (cases "run_loop_from k' m fails"; cases "fst (run_loop_from k' m fails)")
         (simp_all add: run_loop_def run_loop_from_append)
  next
    case (Stopped why rc)
    with r show ?thesis by (simp add: run_loop_def run_loop_from_append)
  qed
  show "snd (run_loop (pre @ fails @ post)) \<le> length pre + max_retries"
  proof (cases st)
    case (Running k')
    with r have "k' < max_retries" using running_counter [of pre k'] by simp
    with a have s: "is_stopped (fst (run_loop_from k' m fails))"
      by (intro failures_stop_loop) simp_all
    have "snd (run_loop_from k' m fails) \<le> m + length fails" by (rule run_loop_from_cycles)
    with s r Running a m show ?thesis
      by (cases "run_loop_from k' m fails"; cases "fst (run_loop_from k' m fails)")
         (simp_all add: run_loop_def run_loop_from_append)
  next
    case (Stopped why rc)
    with r m show ?thesis by (simp add: run_loop_def run_loop_from_append)
  qed
qed (simp_all add: max_retries_def)

theorem run_loop_failure_counter_witness:
  "fst (run_loop [Returned False, Returned True, Returned False, RaisedException TypeError]) = Running 2
   \<and> run_loop ([Returned True, Returned False] @ replicate 5 (Returned False) @ [Returned True, Returned True])
       = (Stopped MaxRetriesReached 5, 6)
   \<and> loop_iteration 3 (Returned False) = Running 4
   \<and> loop_iteration 4 (Returned False) = Stopped MaxRetriesReached 5"
  using run_loop_failure_counter [of "[Returned False, Returned True, Returned False, RaisedException TypeError]" 2
      "replicate 5 (Returned False)" "[Returned True, Returned False]" "[Returned True, Returned True]" 0 3 4]
  by (simp add: run_loop_def max_retries_def numeral_eq_Suc)

section \<open>Duplicate guard and failed sells\<close>

text \<open>
  Claim C2. From a state with no open position, let a first cycle submit a market buy
  that the gateway answers with an order (the first BUY fills), and let the strategy
  answer BUY again in the next cycle. Then over the two cycles exactly one order is
  submitted: the first cycle leaves a position open, and the second makes no gateway
  call other than the candle fetch, changes no position and, when the candles arrive,
  logs that a position is already open. (In dry-run mode no order is ever submitted, so
  a fill by the gateway implies live mode.)
\<close>

theorem second_buy_is_rejected:
  assumes "current_position s = None"
    and "run_strategy c2 = Inr BUY"
    and fill: "(CreateMarketBuyOrder smb q ps, None) \<in> set (new_calls s (snd (run_once cfg c1 s)))"
  shows "length (submissions (new_calls s (run_cycles cfg [c1, c2] s))) = 1
    \<and> has_open_position (snd (run_once cfg c1 s))
    \<and> new_calls (snd (run_once cfg c1 s)) (run_cycles cfg [c1, c2] s) = [(FetchOHLCV, raised (fetch_ohlcv c2))]
    \<and> current_position (run_cycles cfg [c1, c2] s) = current_position (snd (run_once cfg c1 s))
    \<and> (fetch_ohlcv c2 = Inr df \<longrightarrow>
          journal (run_cycles cfg [c1, c2] s) = journal (snd (run_once cfg c1 s)) @ [AlreadyPositioned])"
proof -
  let ?s1 = "snd (run_once cfg c1 s)"
  let ?s2 = "snd (run_once cfg c2 ?s1)"
  have "\<exists>ord cs. current_position ?s1 = Some ord \<and> calls ?s1 = calls s @ cs \<and>
      submissions cs = [CreateMarketBuyOrder smb q ps]"
  proof (cases cfg c1 s rule: run_once_kinds)
    case (quiet cs)
    with fill have "(CreateMarketBuyOrder smb q ps, None) \<in> set cs" by simp
    with quiet(2) show ?thesis by (auto dest: no_submission_mem)
  next
    case (buy p)
    from buy(6) fill have "raised (create_market_buy_order c1 (SYMBOL cfg) (POSITION_SIZE_USDT cfg / p)) = None"
      and "smb = SYMBOL cfg" "q = POSITION_SIZE_USDT cfg / p" "ps = []"
      by auto
    with buy(6,7) show ?thesis
      by (auto simp: raised_None submissions_def)
  next
    case (sell pos)
    with fill show ?thesis by simp
  qed
  then obtain ord cs1 where pos1: "current_position ?s1 = Some ord"
    and cs1: "calls ?s1 = calls s @ cs1"
    and sub1: "submissions cs1 = [CreateMarketBuyOrder smb q ps]"
    by blast
  from pos1 have open1: "current_position ?s1 \<noteq> None" by simp
  have r2: "run_once cfg c2 ?s1 =
    (case fetch_ohlcv c2 of
       Inl e \<Rightarrow> (False, log_decision DataUnavailable (record_call FetchOHLCV (fetch_ohlcv c2) ?s1))
     | Inr df \<Rightarrow> (True, log_decision AlreadyPositioned (record_call FetchOHLCV (fetch_ohlcv c2) ?s1)))"
    by (rule positioned_buy_cycle [OF open1 assms(2)])
  then have c2: "calls ?s2 = calls ?s1 @ [(FetchOHLCV, raised (fetch_ohlcv c2))]"
    and p2: "current_position ?s2 = current_position ?s1"
    and j2: "fetch_ohlcv c2 = Inr df \<longrightarrow> journal ?s2 = journal ?s1 @ [AlreadyPositioned]"
    by (auto simp: trace_defs split: sum.splits)
  from c2 have n12: "new_calls ?s1 ?s2 = [(FetchOHLCV, raised (fetch_ohlcv c2))]" by simp
  from new_calls_trans [OF cs1 c2]
  have "new_calls s ?s2 = cs1 @ [(FetchOHLCV, raised (fetch_ohlcv c2))]" .
  with sub1 have "length (submissions (new_calls s ?s2)) = 1"
    by (simp add: submissions_def)
  with open1 n12 p2 j2 show ?thesis
    by (simp add: has_open_position_def)
qed


theorem second_buy_is_rejected_witness:
  "current_position init = None
   \<and> (CreateMarketBuyOrder ''BTC/USDT'' (1 / 5) [], None)
        \<in> set (new_calls init (snd (run_once live_cfg (market BUY 50 100 100) init)))
   \<and> submissions (new_calls init (run_cycles live_cfg [market BUY 50 100 100, market BUY 50 101 101] init))
        = [CreateMarketBuyOrder ''BTC/USDT'' (1 / 5) []]
   \<and> length (submissions (new_calls init
        (run_cycles live_cfg [market BUY 50 100 100, market BUY 50 101 101] init))) = 1
   \<and> journal (run_cycles live_cfg [market BUY 50 100 100, market BUY 50 101 101] init)
        = [BuyOk, AlreadyPositioned]"
proof -
  have h1: "current_position init = None" by (simp add: init_def)
  have h2: "run_strategy (market BUY 50 101 101) = Inr BUY" by (simp add: market_def)
  have h3: "(CreateMarketBuyOrder ''BTC/USDT'' (1 / 5) [], None)
        \<in> set (new_calls init (snd (run_once live_cfg (market BUY 50 100 100) init)))"
    by (simp add: eval_defs)
  have h4: "submissions (new_calls init (run_cycles live_cfg [market BUY 50 100 100, market BUY 50 101 101] init))
        = [CreateMarketBuyOrder ''BTC/USDT'' (1 / 5) []]"
    by (simp add: eval_defs)
  have h5: "journal (run_cycles live_cfg [market BUY 50 100 100, market BUY 50 101 101] init)
        = [BuyOk, AlreadyPositioned]"
    by (simp add: eval_defs)
  from second_buy_is_rejected [OF h1 h2 h3, of DataFrame] h1 h3 h4 h5 show ?thesis by simp
qed


text \<open>
  Claim C5. With a position open, let a cycle submit a market sell that the gateway
  rejects with exception \<open>e\<close>. Then the position record is unchanged and still open, the
  cycle reports an error notification for the sell and the log line of the failed sell
  (and returns \<^verbatim>\<open>True\<close>), that rejected submission is the only one of the cycle, and
  the position is tradable again: a next cycle with a SELL signal submits a sell for the
  same quantity. (The source has no CLOSING state: the position stays OPEN throughout.)
\<close>

theorem rejected_sell_keeps_position:
  assumes pos: "current_position s = Some pos"
    and rej: "(CreateMarketSellOrder smb q ps, Some e) \<in> set (new_calls s (snd (run_once cfg c s)))"
  shows "current_position (snd (run_once cfg c s)) = Some pos
    \<and> has_open_position (snd (run_once cfg c s))
    \<and> fst (run_once cfg c s)
    \<and> notifications (snd (run_once cfg c s)) = notifications s @ [NotifyError (SellError e)]
    \<and> journal (snd (run_once cfg c s)) = journal s @ [SellFailed]
    \<and> submissions (new_calls s (snd (run_once cfg c s))) = [CreateMarketSellOrder (SYMBOL cfg) (amount pos) []]
    \<and> (fetch_ohlcv c' = Inr df \<and> run_strategy c' = Inr SELL \<longrightarrow>
         new_calls (snd (run_once cfg c s)) (snd (run_once cfg c' (snd (run_once cfg c s))))
           = [(FetchOHLCV, None), (CreateMarketSellOrder (SYMBOL cfg) (amount pos) [],
                raised (create_market_sell_order c' (SYMBOL cfg) (amount pos)))])"
proof -
  let ?s1 = "snd (run_once cfg c s)"
  have "\<not> DRY_RUN cfg \<and> calls ?s1 = calls s @ [(FetchOHLCV, None),
              (CreateMarketSellOrder (SYMBOL cfg) (amount pos) [], Some e)]
      \<and> fst (run_once cfg c s) \<and> current_position ?s1 = Some pos
      \<and> notifications ?s1 = notifications s @ [NotifyError (SellError e)]
      \<and> journal ?s1 = journal s @ [SellFailed]"
  proof (cases cfg c s rule: run_once_kinds)
    case (quiet cs)
    with rej have "(CreateMarketSellOrder smb q ps, Some e) \<in> set cs" by simp
    with quiet(2) show ?thesis by (auto dest: no_submission_mem)
  next
    case (buy p)
    with rej show ?thesis by simp
  next
    case (sell pos')
    from sell(3) pos have pp: "pos' = pos" by simp
    from sell(4) rej pp have "raised (create_market_sell_order c (SYMBOL cfg) (amount pos)) = Some e"
      by auto
    then have e: "create_market_sell_order c (SYMBOL cfg) (amount pos) = Inl e"
      by (simp add: raised_Some)
    with sell pp show ?thesis by (simp add: raised_def)
  qed
  then have live: "\<not> DRY_RUN cfg"
    and c1: "calls ?s1 = calls s @ [(FetchOHLCV, None),
              (CreateMarketSellOrder (SYMBOL cfg) (amount pos) [], Some e)]"
    and rest: "fst (run_once cfg c s)" "current_position ?s1 = Some pos"
       "notifications ?s1 = notifications s @ [NotifyError (SellError e)]"
       "journal ?s1 = journal s @ [SellFailed]"
    by simp_all
  from c1 have sub: "submissions (new_calls s ?s1) = [CreateMarketSellOrder (SYMBOL cfg) (amount pos) []]"
    by (simp add: submissions_def)
  have next_cycle: "new_calls ?s1 (snd (run_once cfg c' ?s1))
           = [(FetchOHLCV, None), (CreateMarketSellOrder (SYMBOL cfg) (amount pos) [],
                raised (create_market_sell_order c' (SYMBOL cfg) (amount pos)))]"
    if "fetch_ohlcv c' = Inr df" "run_strategy c' = Inr SELL"
    using sell_cycle_submits [OF live rest(2) that] by simp
  from rest sub next_cycle show ?thesis
    by (simp add: has_open_position_def)
qed


theorem rejected_sell_keeps_position_witness:
  "current_position (holding 100 2) = Some (gateway_order ''buy'' ''BTC/USDT'' 100 (Some 2))
   \<and> (CreateMarketSellOrder ''BTC/USDT'' (Some 2) [], Some ExchangeError)
        \<in> set (new_calls (holding 100 2)
             (snd (run_once live_cfg (submission_raises ExchangeError (market SELL 0 97 97)) (holding 100 2))))
   \<and> current_position (snd (run_once live_cfg (submission_raises ExchangeError (market SELL 0 97 97)) (holding 100 2)))
        = Some (gateway_order ''buy'' ''BTC/USDT'' 100 (Some 2))
   \<and> new_calls (snd (run_once live_cfg (submission_raises ExchangeError (market SELL 0 97 97)) (holding 100 2)))
        (snd (run_once live_cfg (market SELL 0 97 97)
           (snd (run_once live_cfg (submission_raises ExchangeError (market SELL 0 97 97)) (holding 100 2)))))
        = [(FetchOHLCV, None), (CreateMarketSellOrder ''BTC/USDT'' (Some 2) [], None)]"
proof -
  have h1: "current_position (holding 100 2) = Some (gateway_order ''buy'' ''BTC/USDT'' 100 (Some 2))"
    by (simp add: holding_def)
  have h2: "(CreateMarketSellOrder ''BTC/USDT'' (Some 2) [], Some ExchangeError)
        \<in> set (new_calls (holding 100 2)
             (snd (run_once live_cfg (submission_raises ExchangeError (market SELL 0 97 97)) (holding 100 2))))"
    by (simp add: eval_defs)
  have h3: "fetch_ohlcv (market SELL 0 97 97) = Inr DataFrame \<and> run_strategy (market SELL 0 97 97) = Inr SELL"
    by (simp add: market_def)
  from rejected_sell_keeps_position [OF h1 h2, of "market SELL 0 97 97" DataFrame] h1 h2 h3 show ?thesis
    by (simp add: live_cfg_def gateway_order_def market_def raised_def)
qed

section \<open>Single position\<close>

text \<open>
  Claim C1. After any sequence of cycles from the initial state, whatever the strategy
  signals and the exchange answers, the executor tracks at most one position for every
  symbol; and the positions opened and not yet closed, as the bot announces them, are
  exactly the tracked ones: the number of buy notifications equals the number of sell
  notifications plus the number of tracked positions. So a position is opened only
  from none and closed only to none.
\<close>

theorem single_position_invariant:
  "length (filter (\<lambda>p. symbol p = smb) (open_positions (run_cycles cfg cs init))) \<le> 1
   \<and> length (filter is_buy_note (notifications (run_cycles cfg cs init)))
      = length (filter is_sell_note (notifications (run_cycles cfg cs init)))
        + length (open_positions (run_cycles cfg cs init))"
proof
  show "length (filter (\<lambda>p. symbol p = smb) (open_positions (run_cycles cfg cs init))) \<le> 1"
    by (simp add: open_positions_def split: option.splits)
  show "length (filter is_buy_note (notifications (run_cycles cfg cs init)))
      = length (filter is_sell_note (notifications (run_cycles cfg cs init)))
        + length (open_positions (run_cycles cfg cs init))"
    by (rule run_cycles_ledger) (simp add: init_def open_positions_def)
qed

section \<open>Quantity of a market buy\<close>

text \<open>
  Claim C7, as stated, fails. With a notional of 20, a ticker quote of 100 and a
  gateway that fills the order at 110 for the quantity requested, the position records
  the quantity 20 / 100, not 20 / 110.
\<close>

theorem buy_quantity_counterexample:
  "price (the (current_position (snd (run_once live_cfg (market BUY 50 100 110) init)))) = Some 110
   \<and> amount (the (current_position (snd (run_once live_cfg (market BUY 50 100 110) init)))) = Some (20 / 100)
   \<and> amount (the (current_position (snd (run_once live_cfg (market BUY 50 100 110) init))))
        \<noteq> Some (POSITION_SIZE_USDT live_cfg / 110)"
  by (simp add: eval_defs)

text \<open>
  Claim C7, amended. Whenever \<^verbatim>\<open>place_market_buy\<close> returns an order, the ticker gave a
  non-zero last price \<open>p\<close> and the position is that order. In live mode the quantity
  submitted to the gateway is the notional divided by \<open>p\<close>, the pre-trade quote, and the
  position is the order the gateway returned, recorded as it is; in dry-run mode no
  order is submitted and the position records quantity notional / \<open>p\<close> at price \<open>p\<close>.
\<close>

theorem buy_quantity_from_ticker:
  assumes "place_market_buy cfg ex clock smb a s = (Inr (Some ord), s')"
  shows "\<exists>p. p \<noteq> 0 \<and> fetch_ticker ex smb = Inr (Some p) \<and> current_position s' = Some ord
    \<and> (if DRY_RUN cfg
        then calls s' = calls s @ [(FetchTicker smb, None)]
          \<and> amount ord = Some (a / p) \<and> price ord = Some p
        else calls s' = calls s @ [(FetchTicker smb, None), (CreateMarketBuyOrder smb (a / p) [], None)]
          \<and> create_market_buy_order ex smb (a / p) = Inr ord)"
  using assms
  by (auto simp: place_market_buy_def buy_failed_def Let_def trace_defs py_div_Inr
      split: sum.splits option.splits if_splits)

theorem buy_quantity_from_ticker_witness:
  "place_market_buy live_cfg (market BUY 50 100 110) 0 ''BTC/USDT'' 20 init =
     (Inr (Some (gateway_order ''buy'' ''BTC/USDT'' 110 (Some (1 / 5)))),
      \<lparr>current_position = Some (gateway_order ''buy'' ''BTC/USDT'' 110 (Some (1 / 5))),
       calls = [(FetchTicker ''BTC/USDT'', None), (CreateMarketBuyOrder ''BTC/USDT'' (1 / 5) [], None)],
       notifications = [NotifyBuy ''BTC/USDT'' 100 20 False], journal = []\<rparr>)
   \<and> (\<exists>p. p \<noteq> 0 \<and> fetch_ticker (market BUY 50 100 110) ''BTC/USDT'' = Inr (Some p)
        \<and> create_market_buy_order (market BUY 50 100 110) ''BTC/USDT'' (20 / p)
            = Inr (gateway_order ''buy'' ''BTC/USDT'' 110 (Some (1 / 5))))"
proof -
  have h: "place_market_buy live_cfg (market BUY 50 100 110) 0 ''BTC/USDT'' 20 init =
     (Inr (Some (gateway_order ''buy'' ''BTC/USDT'' 110 (Some (1 / 5)))),
      \<lparr>current_position = Some (gateway_order ''buy'' ''BTC/USDT'' 110 (Some (1 / 5))),
       calls = [(FetchTicker ''BTC/USDT'', None), (CreateMarketBuyOrder ''BTC/USDT'' (1 / 5) [], None)],
       notifications = [NotifyBuy ''BTC/USDT'' 100 20 False], journal = []\<rparr>)"
    by (simp add: eval_defs)
  have l: "\<not> DRY_RUN live_cfg" by (simp add: live_cfg_def)
  from buy_quantity_from_ticker [OF h] l h show ?thesis by auto
qed

section \<open>Transport failures of a submission\<close>

text \<open>
  Claim C3, as stated, fails. A buy submission that times out ends its cycle: the
  cycle returns \<^verbatim>\<open>True\<close>, no position is recorded, and no gateway call follows the
  failed submission; the next BUY cycle submits a second order.
\<close>

theorem submission_timeout_counterexample:
  "fst (run_once live_cfg (submission_raises RequestTimeout (market BUY 50 100 100)) init) = True
   \<and> current_position (run_cycles live_cfg [submission_raises RequestTimeout (market BUY 50 100 100)] init) = None
   \<and> calls (run_cycles live_cfg
        [submission_raises RequestTimeout (market BUY 50 100 100), market BUY 50 100 100] init)
      = [(FetchOHLCV, None), (FetchBalance, None), (FetchTicker ''BTC/USDT'', None),
         (CreateMarketBuyOrder ''BTC/USDT'' (1 / 5) [], Some RequestTimeout),
         (FetchOHLCV, None), (FetchBalance, None), (FetchTicker ''BTC/USDT'', None),
         (CreateMarketBuyOrder ''BTC/USDT'' (1 / 5) [], None)]"
  by (simp add: eval_defs)

text \<open>
  Claim C3, amended. In live mode, when the one submission of a BUY cycle raises a
  transport error, the cycle stops there: the submission is not retried, an error
  notification is sent, the log records the failed buy, \<^verbatim>\<open>run_once\<close> returns \<^verbatim>\<open>True\<close>
  and the position stays absent; no order-status query is made. The retry wrapper, which
  the executor does not use, calls its function \<^verbatim>\<open>max_retries\<close> times when every
  attempt raises a network error and then returns \<^verbatim>\<open>None\<close>.
\<close>

theorem submission_timeout_not_reconciled:
  assumes "\<not> DRY_RUN cfg" and "current_position s = None"
    and "fetch_ohlcv c = Inr df" and "run_strategy c = Inr BUY"
    and "fst (check_balance c ''USDT'' (Some (POSITION_SIZE_USDT cfg)) s)"
    and "fetch_ticker c (SYMBOL cfg) = Inr (Some p)" and "p \<noteq> 0"
    and "create_market_buy_order c (SYMBOL cfg) (POSITION_SIZE_USDT cfg / p) = Inl e"
    and "is_network_error e"
  shows "run_once cfg c s =
      (True, s\<lparr>calls := calls s @ [(FetchOHLCV, None), (FetchBalance, None),
                   (FetchTicker (SYMBOL cfg), None),
                   (CreateMarketBuyOrder (SYMBOL cfg) (POSITION_SIZE_USDT cfg / p) [], Some e)],
               notifications := notifications s @ [NotifyError (BuyError e)],
               journal := journal s @ [BuyFailed]\<rparr>)
    \<and> (0 < m \<and> (\<forall>k<nat m. \<exists>e'. func k = Inl e' \<and> is_network_error e') \<longrightarrow>
          retry_on_network_error func m = (Inr None, nat m))"
proof (intro conjI impI)
  from assms(9) have "e \<noteq> InsufficientFunds" by auto
  with assms(1-8) show "run_once cfg c s =
      (True, s\<lparr>calls := calls s @ [(FetchOHLCV, None), (FetchBalance, None),
                   (FetchTicker (SYMBOL cfg), None),
                   (CreateMarketBuyOrder (SYMBOL cfg) (POSITION_SIZE_USDT cfg / p) [], Some e)],
               notifications := notifications s @ [NotifyError (BuyError e)],
               journal := journal s @ [BuyFailed]\<rparr>)"
    by (auto simp: run_once_def data_handler_fetch_ohlcv_def has_open_position_def
          check_balance_def place_market_buy_def buy_failed_def Let_def trace_defs
        split: sum.splits option.splits if_splits)
next
  assume "0 < m \<and> (\<forall>k<nat m. \<exists>e'. func k = Inl e' \<and> is_network_error e')"
  then show "retry_on_network_error func m = (Inr None, nat m)"
    using retry_all_network_errors [of m func 0] by (simp add: retry_on_network_error_def)
qed

theorem submission_timeout_not_reconciled_witness:
  "run_once live_cfg (submission_raises RequestTimeout (market BUY 50 100 100)) init =
     (True, \<lparr>current_position = None,
        calls = [(FetchOHLCV, None), (FetchBalance, None), (FetchTicker ''BTC/USDT'', None),
                 (CreateMarketBuyOrder ''BTC/USDT'' (1 / 5) [], Some RequestTimeout)],
        notifications = [NotifyError (BuyError RequestTimeout)],
        journal = [BuyFailed]\<rparr>)
   \<and> retry_on_network_error (\<lambda>k. Inl RequestTimeout :: py_exn + order option) 3 = (Inr None, 3)"
  using submission_timeout_not_reconciled [of live_cfg init "submission_raises RequestTimeout (market BUY 50 100 100)" DataFrame
      100 RequestTimeout 3 "\<lambda>k. Inl RequestTimeout :: py_exn + order option"]
  by (simp add: eval_defs)

section \<open>Idempotency keys\<close>

text \<open>
  Claim C4, as stated, fails. Three separate intents (a buy, a sell, another buy), each
  filled, are submitted without any idempotency key: no fresh key is minted.
\<close>

theorem idempotency_key_counterexample:
  "map idempotency_key (submissions (calls (run_cycles live_cfg
      [market BUY 50 100 100, market SELL 50 110 110, market BUY 50 105 105] init)))
   = [None, None, None]"
  by (simp add: eval_defs)

text \<open>
  Claim C4, amended. No order submission of the bot carries an idempotency key, for a
  first intent or a later one: the executor passes the symbol and the quantity only.
  A cycle makes at most one order submission: a submission that raises is not attempted
  again. The retry wrapper, which the order path does not use, re-invokes the same
  zero-argument function and hands it nothing: when two attempts time out and the third
  succeeds it has called the function three times and returns the third result.
\<close>

theorem no_idempotency_key:
  "set (map idempotency_key (submissions (calls (run_cycles cfg cs init)))) \<subseteq> {None}
   \<and> length (submissions (new_calls s (snd (run_once cfg c s)))) \<le> 1
   \<and> (3 \<le> m \<and> func 0 = Inl RequestTimeout \<and> func 1 = Inl RequestTimeout \<and> func 2 = Inr v \<longrightarrow>
        retry_on_network_error func m = (Inr v, 3))"
proof (intro conjI impI)
  show "set (map idempotency_key (submissions (calls (run_cycles cfg cs init)))) \<subseteq> {None}"
    by (rule run_cycles_keys) (simp add: init_def submissions_def)
  show "length (submissions (new_calls s (snd (run_once cfg c s)))) \<le> 1"
    by (rule run_once_one_submission)
next
  assume a: "3 \<le> m \<and> func 0 = Inl RequestTimeout \<and> func 1 = Inl RequestTimeout \<and> func 2 = Inr v"
  then have n: "0 < nat m" "Suc 0 < nat m" "Suc (Suc 0) < nat m"
    by linarith+
  then have "[0..<nat m] = 0 # Suc 0 # Suc (Suc 0) # [Suc (Suc (Suc 0))..<nat m]"
    by (simp add: upt_conv_Cons)
  moreover from a have "func (Suc 0) = Inl RequestTimeout" "func (Suc (Suc 0)) = Inr v"
    by (simp_all add: numeral_2_eq_2)
  moreover from a have "int 0 < m - 1" "int (Suc 0) < m - 1"
    by linarith+
  ultimately show "retry_on_network_error func m = (Inr v, 3)"
    using a by (simp add: retry_on_network_error_def)
qed

theorem no_idempotency_key_witness:
  "length (submissions (new_calls init (snd (run_once live_cfg (market BUY 50 100 100) init)))) \<le> 1
   \<and> retry_on_network_error
        (\<lambda>k. if k < 2 then Inl RequestTimeout else Inr (Some (gateway_order ''buy'' ''BTC/USDT'' 100 (Some 1)))) 3
      = (Inr (Some (gateway_order ''buy'' ''BTC/USDT'' 100 (Some 1))), 3)"
  using no_idempotency_key [of live_cfg "[]" init "market BUY 50 100 100" 3
      "\<lambda>k. if k < 2 then Inl RequestTimeout else Inr (Some (gateway_order ''buy'' ''BTC/USDT'' 100 (Some 1)))"
      "Some (gateway_order ''buy'' ''BTC/USDT'' 100 (Some 1))"]
  by simp

end
